theory Spec2Isabelle
  imports Complex_Main "HOL-Library.Word"
begin

section \<open>JavaScript strings\<close>

text \<open>
  A JavaScript string is a sequence of UTF-16 code units. The ASCII literals of the
  source are written with \<open>lit\<close>; the Vietnamese messages are given by their code units.
\<close>

type_synonym js_string = "nat list"

definition lit :: "string \<Rightarrow> js_string" where
  "lit s = map of_char s"

fun startsWith :: "js_string \<Rightarrow> js_string \<Rightarrow> bool" where
  "startsWith s [] = True"
| "startsWith [] (n # ns) = False"
| "startsWith (c # cs) (n # ns) = (c = n \<and> startsWith cs ns)"

text \<open>\<open>s.includes(n)\<close>: the needle occurs at some position of \<open>s\<close>.\<close>

fun js_includes :: "js_string \<Rightarrow> js_string \<Rightarrow> bool" where
  "js_includes [] n = (n = [])"
| "js_includes (c # cs) n = (startsWith (c # cs) n \<or> js_includes cs n)"

text \<open>
  \<open>s.toLowerCase()\<close> on the code units \<open>A\<close>..\<open>Z\<close>. Code units outside ASCII are
  left as they are: none of them has a lower-case image that could complete one of the
  markers searched for below.
\<close>

definition toLowerCase :: "js_string \<Rightarrow> js_string" where
  "toLowerCase s = map (\<lambda>c. if 65 \<le> c \<and> c \<le> 90 then c + 32 else c) s"

section \<open>The retry wrapper\<close>

text \<open>
  The value an operation rejects with: \<open>err?.status\<close>, \<open>err?.message\<close> (absent
  when \<open>None\<close>) and the text \<open>JSON.stringify(err)\<close>, which depends on the enumerable
  properties of the object and is therefore a field of its own.
\<close>

record js_error =
  status :: "int option"
  message :: "js_string option"
  json :: js_string

datatype 'a settled = Resolve 'a | Reject js_error

text \<open>
  What \<open>callWithRetry\<close> throws: the caught object itself (\<open>throw err\<close>) or a fresh
  \<open>new Error(msg)\<close>.
\<close>

datatype thrown = Rethrown js_error | NewError js_string

fun thrownMessage :: "thrown \<Rightarrow> js_string option" where
  "thrownMessage (Rethrown e) = message e"
| "thrownMessage (NewError m) = Some m"

text \<open>
  The observable behaviour of one call: every invocation of the operation and every
  \<open>setTimeout\<close> wait, in order, and how the returned promise settles.
\<close>

datatype event = Attempt | Wait real

record 'a run =
  outcome :: "thrown + 'a"
  trace :: "event list"

definition attempts :: "event list \<Rightarrow> nat" where
  "attempts tr = length (filter (\<lambda>e. e = Attempt) tr)"

fun waits :: "event list \<Rightarrow> real list" where
  "waits [] = []"
| "waits (Attempt # tr) = waits tr"
| "waits (Wait d # tr) = d # waits tr"

subsection \<open>src/services/geminiService.ts\<close>

text \<open>
  The message of the error thrown after the loop (the "server busy, wait 30 seconds and
  press retry" text), as its UTF-16 code units.
\<close>

definition serverBusyMessage :: js_string where
  "serverBusyMessage =
    [77, 193, 89, 32, 67, 72, 7910, 32, 66, 7852, 78, 58, 32, 66, 233, 32, 118, 117, 105,
     32, 108, 242, 110, 103, 32, 99, 104, 7901, 32, 51, 48, 32, 103, 105, 226, 121, 32,
     114, 7891, 105, 32, 110, 104, 7845, 110, 32, 39, 84, 104, 7917, 32, 108, 7841, 105,
     39, 32, 110, 104, 233, 33]"

definition isQuotaError :: "js_error \<Rightarrow> bool" where
  "isQuotaError err =
    (let errorStr = toLowerCase (json err) in
       status err = Some 429 \<or>
       (case message err of None \<Rightarrow> False | Some m \<Rightarrow> js_includes m (lit ''429'')) \<or>
       js_includes errorStr (lit ''quota'') \<or>
       js_includes errorStr (lit ''resource_exhausted'') \<or>
       js_includes errorStr (lit ''rate_limit''))"

text \<open>
  The \<open>for\<close> loop of \<open>callWithRetry\<close>. The operation is given by the result of its
  \<open>i\<close>-th invocation (from 0); the loop calls it once per iteration, so the loop counter
  is also the number of invocations made so far. \<open>delay\<close> is a double in the source
  and an exact real here.
\<close>

function callWithRetry_loop ::
  "(nat \<Rightarrow> 'a settled) \<Rightarrow> int \<Rightarrow> nat \<Rightarrow> real \<Rightarrow> event list \<Rightarrow> 'a run" where
  "callWithRetry_loop fn maxRetries i delay tr =
    (if int i < maxRetries then
       (case fn i of
          Resolve v \<Rightarrow> \<lparr>outcome = Inr v, trace = tr @ [Attempt]\<rparr>
        | Reject err \<Rightarrow>
            if isQuotaError err \<and> int i < maxRetries - 1
            then callWithRetry_loop fn maxRetries (Suc i) (delay * 2.5)
                   (tr @ [Attempt, Wait delay])
            else \<lparr>outcome = Inl (Rethrown err), trace = tr @ [Attempt]\<rparr>)
     else \<lparr>outcome = Inl (NewError serverBusyMessage), trace = tr\<rparr>)"
  by pat_completeness auto
termination
  by (relation "measure (\<lambda>(fn, maxRetries, i, delay, tr). nat (maxRetries - int i))") auto

definition callWithRetry :: "(nat \<Rightarrow> 'a settled) \<Rightarrow> int \<Rightarrow> 'a run" where
  "callWithRetry fn maxRetries = callWithRetry_loop fn maxRetries 0 1500 []"

declare callWithRetry_loop.simps [simp del]

subsection \<open>src/unnamed/part_000\<close>

text \<open>
  The second copy of the service keeps the last error, throws a fresh \<open>Error\<close> for a
  failure that is not a quota error, and decides after the loop which message to throw.
  Its three Vietnamese texts: the "server busy" message, and the prefixes
  \<open>L\<dots>i API:\<close> and \<open>L\<dots>i:\<close> ("error") followed by a space.
\<close>

definition serverBusyMessage_part0 :: js_string where
  "serverBusyMessage_part0 =
    [77, 193, 89, 32, 67, 72, 7910, 32, 66, 7852, 78, 58, 32, 77, 115, 32, 76, 121, 32, 65,
     73, 32, 273, 97, 110, 103, 32, 112, 104, 7909, 99, 32, 118, 7909, 32, 113, 117, 225,
     32, 110, 104, 105, 7873, 117, 32, 98, 7841, 110, 32, 110, 104, 7887, 46, 32, 66, 233,
     32, 99, 104, 7901, 32, 51, 48, 32, 103, 105, 226, 121, 32, 114, 7891, 105, 32, 110,
     104, 7845, 110, 32, 39, 84, 104, 7917, 32, 108, 7841, 105, 39, 32, 110, 104, 233, 33]"

definition apiErrorPrefix :: js_string where
  "apiErrorPrefix = [76, 7895, 105, 32, 65, 80, 73, 58, 32]"

definition errorPrefix :: js_string where
  "errorPrefix = [76, 7895, 105, 58, 32]"

text \<open>\<open>a || b\<close> on an optional string: absent and empty strings are falsy.\<close>

fun orElse :: "js_string option \<Rightarrow> js_string \<Rightarrow> js_string" where
  "orElse None d = d"
| "orElse (Some m) d = (if m = [] then d else m)"

definition isQuotaError_part0 :: "js_error \<Rightarrow> bool" where
  "isQuotaError_part0 err =
    (let errorStr = toLowerCase (json err);
         errorMessage = orElse (map_option toLowerCase (message err)) []
     in status err = Some 429 \<or>
        js_includes errorMessage (lit ''429'') \<or>
        js_includes errorStr (lit ''quota'') \<or>
        js_includes errorStr (lit ''resource_exhausted'') \<or>
        js_includes errorStr (lit ''rate_limit''))"

text \<open>The statements after the loop: \<open>lastError\<close> is \<open>null\<close> when no attempt failed.\<close>

definition exhausted_part0 :: "js_error option \<Rightarrow> thrown" where
  "exhausted_part0 lastError =
    (let actualMessage =
           orElse (case lastError of None \<Rightarrow> None | Some e \<Rightarrow> message e)
             (lit ''Unknown error'')
     in if js_includes actualMessage (lit ''quota'') \<or> js_includes actualMessage (lit ''429'')
        then NewError serverBusyMessage_part0
        else NewError (errorPrefix @ actualMessage))"

text \<open>
  A quota error on the last iteration takes neither branch of the \<open>catch\<close> block: the
  loop goes on to \<open>i++\<close> and its condition ends it.
\<close>

function callWithRetry_part0_loop ::
  "(nat \<Rightarrow> 'a settled) \<Rightarrow> int \<Rightarrow> nat \<Rightarrow> real \<Rightarrow> js_error option \<Rightarrow> event list \<Rightarrow> 'a run"
  where
  "callWithRetry_part0_loop fn maxRetries i delay lastError tr =
    (if int i < maxRetries then
       (case fn i of
          Resolve v \<Rightarrow> \<lparr>outcome = Inr v, trace = tr @ [Attempt]\<rparr>
        | Reject err \<Rightarrow>
            if isQuotaError_part0 err \<and> int i < maxRetries - 1
            then callWithRetry_part0_loop fn maxRetries (Suc i) (delay * 2.5) (Some err)
                   (tr @ [Attempt, Wait delay])
            else if \<not> isQuotaError_part0 err
            then \<lparr>outcome = Inl (NewError (orElse (message err) (apiErrorPrefix @ json err))),
                  trace = tr @ [Attempt]\<rparr>
            else callWithRetry_part0_loop fn maxRetries (Suc i) delay (Some err)
                   (tr @ [Attempt]))
     else \<lparr>outcome = Inl (exhausted_part0 lastError), trace = tr\<rparr>)"
  by pat_completeness auto
termination
  by (relation "measure (\<lambda>(fn, maxRetries, i, delay, lastError, tr). nat (maxRetries - int i))")
    auto

declare callWithRetry_part0_loop.simps [simp del]

definition callWithRetry_part0 :: "(nat \<Rightarrow> 'a settled) \<Rightarrow> int \<Rightarrow> 'a run" where
  "callWithRetry_part0 fn maxRetries = callWithRetry_part0_loop fn maxRetries 0 1500 None []"

text \<open>The events of \<open>n\<close> failed attempts, each followed by its wait, from delay \<open>d\<close>.\<close>

fun backoff :: "nat \<Rightarrow> real \<Rightarrow> event list" where
  "backoff 0 d = []"
| "backoff (Suc n) d = Attempt # Wait d # backoff n (d * 2.5)"

subsection \<open>Concrete operations and errors\<close>

definition quotaError429 :: js_error where
  "quotaError429 =
    \<lparr>status = Some 429, message = Some (lit ''Too Many Requests''), json = lit ''{}''\<rparr>"

definition badRequest :: js_error where
  "badRequest = \<lparr>status = Some 400, message = Some (lit ''Bad Request''), json = lit ''{}''\<rparr>"

definition alwaysRejects :: "js_error \<Rightarrow> nat \<Rightarrow> unit settled" where
  "alwaysRejects e k = Reject e"

definition rejectsThenResolves :: "nat \<Rightarrow> js_error \<Rightarrow> 'a \<Rightarrow> nat \<Rightarrow> 'a settled" where
  "rejectsThenResolves n e v k = (if k < n then Reject e else Resolve v)"


section \<open>The audio codec bridge\<close>

subsection \<open>Numbers, typed arrays and the audio buffer\<close>

text \<open>
  A JavaScript number that results from the arithmetic of \<open>decodeAudioData\<close>: a finite
  value (an exact real here), \<open>Infinity\<close> or \<open>NaN\<close>.
\<close>

datatype js_number = Num real | Infinity | NaN

text \<open>\<open>a / b\<close> for two array sizes: division by zero gives \<open>Infinity\<close>, or \<open>NaN\<close> for 0 / 0.\<close>

definition js_divide :: "nat \<Rightarrow> nat \<Rightarrow> js_number" where
  "js_divide a b =
    (if b = 0 then (if a = 0 then NaN else Infinity) else Num (real a / real b))"

datatype js_exception = RangeError | NotSupportedError | IndexSizeError | InvalidCharacterError

type_synonym ArrayBuffer = "8 word list"
type_synonym Int16Array = "16 word list"
type_synonym Float32Array = "js_number list"

text \<open>
  A \<open>Uint8Array\<close> is a view of \<open>byteLength\<close> bytes, from \<open>byteOffset\<close> on, into
  an \<open>ArrayBuffer\<close> that may be larger: \<open>data[i]\<close> is the byte at \<open>byteOffset + i\<close>
  of \<open>data.buffer\<close>.
\<close>

record Uint8Array =
  buffer :: ArrayBuffer
  byteOffset :: nat
  byteLength :: nat

definition bytes_of :: "Uint8Array \<Rightarrow> 8 word list" where
  "bytes_of a = take (byteLength a) (drop (byteOffset a) (buffer a))"

text \<open>
  \<open>new Uint8Array(len)\<close> with its elements then set to \<open>bs\<close>: the array owns a
  buffer of exactly its own bytes.
\<close>

definition new_Uint8Array :: "8 word list \<Rightarrow> Uint8Array" where
  "new_Uint8Array bs = \<lparr>buffer = bs, byteOffset = 0, byteLength = length bs\<rparr>"

definition spans_buffer :: "Uint8Array \<Rightarrow> bool" where
  "spans_buffer a = (byteOffset a = 0 \<and> byteLength a = length (buffer a))"

text \<open>
  \<open>new Int16Array(arrayBuffer)\<close>: the constructor throws a \<open>RangeError\<close> when the
  byte length of the buffer is not a multiple of 2, and otherwise views each pair of
  bytes of the whole buffer, low byte first, as one signed 16-bit element.
\<close>

fun int16_elements :: "ArrayBuffer \<Rightarrow> Int16Array" where
  "int16_elements (lo # hi # rest) = word_cat hi lo # int16_elements rest"
| "int16_elements rest = []"

definition new_Int16Array :: "ArrayBuffer \<Rightarrow> js_exception + Int16Array" where
  "new_Int16Array arrayBuffer =
    (if length arrayBuffer mod 2 \<noteq> 0 then Inl RangeError
     else Inr (int16_elements arrayBuffer))"


text \<open>
  \<open>dataInt16[k] / 32768.0\<close>: an index outside the array reads \<open>undefined\<close>, and the
  quotient is \<open>NaN\<close>. For an element of the array the quotient is a multiple of
  \<open>1 / 32768\<close> of magnitude at most 1, which a \<open>Float32Array\<close> stores without rounding.
\<close>

definition sample_at :: "Int16Array \<Rightarrow> nat \<Rightarrow> js_number" where
  "sample_at dataInt16 k =
    (if k < length dataInt16 then Num (real_of_int (sint (dataInt16 ! k)) / 32768.0) else NaN)"

text \<open>\<open>channelData[i] = v\<close>: a typed array ignores a write outside its length.\<close>

definition typed_array_set :: "Float32Array \<Rightarrow> nat \<Rightarrow> js_number \<Rightarrow> Float32Array" where
  "typed_array_set a i v = (if i < length a then a[i := v] else a)"

record AudioBuffer =
  sampleRate :: real
  channels :: "Float32Array list"

text \<open>
  The \<open>AudioContext\<close> is an argument of \<open>decodeAudioData\<close>; of it the function uses
  \<open>createBuffer(numberOfChannels, length, sampleRate)\<close> only.
\<close>

record AudioContext =
  createBuffer :: "nat \<Rightarrow> js_number \<Rightarrow> real \<Rightarrow> js_exception + AudioBuffer"

text \<open>
  Modelled from the Web Audio API, for use as a concrete context: \<open>createBuffer\<close>
  converts the length to an unsigned integer by truncation (\<open>Infinity\<close> and \<open>NaN\<close>
  become 0), throws \<open>NotSupportedError\<close> for a channel count or a length of zero, and
  otherwise allocates the channels filled with zeros.
\<close>

definition to_unsigned_long :: "js_number \<Rightarrow> nat" where
  "to_unsigned_long x = (case x of Num r \<Rightarrow> nat \<lfloor>r\<rfloor> mod 2 ^ 32 | Infinity \<Rightarrow> 0 | NaN \<Rightarrow> 0)"

definition webAudioContext :: AudioContext where
  "webAudioContext =
    \<lparr>createBuffer = (\<lambda>numberOfChannels len rate.
       if numberOfChannels = 0 \<or> to_unsigned_long len = 0 then Inl NotSupportedError
       else Inr \<lparr>sampleRate = rate,
                 channels =
                   replicate numberOfChannels (replicate (to_unsigned_long len) (Num 0))\<rparr>)\<rparr>"

subsection \<open>decodeAudioData\<close>

text \<open>
  The inner loop \<open>for (let i = 0; i < frameCount; i++)\<close>. \<open>frameCount\<close> is the
  quotient itself, not rounded: with 10 samples and 3 channels the loop also runs for
  \<open>i = 3\<close>.
\<close>

function fill_channel ::
  "Int16Array \<Rightarrow> nat \<Rightarrow> nat \<Rightarrow> real \<Rightarrow> nat \<Rightarrow> Float32Array \<Rightarrow> Float32Array" where
  "fill_channel dataInt16 numChannels channel frameCount i channelData =
    (if real i < frameCount
     then fill_channel dataInt16 numChannels channel frameCount (Suc i)
            (typed_array_set channelData i (sample_at dataInt16 (i * numChannels + channel)))
     else channelData)"
  by pat_completeness auto
termination
  by (relation "measure (\<lambda>(d, n, c, frameCount, i, a). nat \<lceil>frameCount\<rceil> - i)")
    (auto simp: zless_nat_eq_int_zless less_ceiling_iff intro!: diff_less_mono2)

declare fill_channel.simps [simp del]

text \<open>
  The outer loop over the channels. \<open>buffer.getChannelData(channel)\<close> throws
  \<open>IndexSizeError\<close> for a channel the buffer does not have; the array it returns is
  the buffer's own, so the writes of the inner loop change the buffer.
\<close>

function decode_channels ::
  "Int16Array \<Rightarrow> nat \<Rightarrow> real \<Rightarrow> nat \<Rightarrow> AudioBuffer \<Rightarrow> js_exception + AudioBuffer" where
  "decode_channels dataInt16 numChannels frameCount channel audioBuffer =
    (if channel < numChannels then
       (if channel < length (channels audioBuffer) then
          decode_channels dataInt16 numChannels frameCount (Suc channel)
            (audioBuffer\<lparr>channels := (channels audioBuffer)
               [channel := fill_channel dataInt16 numChannels channel frameCount 0
                             (channels audioBuffer ! channel)]\<rparr>)
        else Inl IndexSizeError)
     else Inr audioBuffer)"
  by pat_completeness auto
termination
  by (relation "measure (\<lambda>(d, numChannels, f, channel, b). numChannels - channel)") auto

declare decode_channels.simps [simp del]

text \<open>
  \<open>frameCount\<close> is finite unless \<open>numChannels\<close> is 0, and then the outer loop has no
  iteration.
\<close>

definition decodeAudioData ::
  "Uint8Array \<Rightarrow> AudioContext \<Rightarrow> real \<Rightarrow> nat \<Rightarrow> js_exception + AudioBuffer" where
  "decodeAudioData data ctx rate numChannels =
    (case new_Int16Array (buffer data) of
       Inl e \<Rightarrow> Inl e
     | Inr dataInt16 \<Rightarrow>
         (let frameCount = js_divide (length dataInt16) numChannels in
          case createBuffer ctx numChannels frameCount rate of
            Inl e \<Rightarrow> Inl e
          | Inr audioBuffer \<Rightarrow>
              (case frameCount of
                 Num f \<Rightarrow> decode_channels dataInt16 numChannels f 0 audioBuffer
               | Infinity \<Rightarrow> Inr audioBuffer
               | NaN \<Rightarrow> Inr audioBuffer)))"

text \<open>
  Concrete arrays: ten samples, the values 0 to 9, as twenty bytes; one sample; the
  first three bytes of a buffer of four; and the last two bytes of a buffer of four.
\<close>

definition tenSamples :: Uint8Array where
  "tenSamples = new_Uint8Array [0, 0, 1, 0, 2, 0, 3, 0, 4, 0, 5, 0, 6, 0, 7, 0, 8, 0, 9, 0]"





subsection \<open>btoa and atob\<close>

text \<open>
  Modelled from the web platform standard: \<open>btoa\<close> and \<open>atob\<close> are functions of the browser,
  not of this repository. A base64 digit stands for six bits; \<open>=\<close> (code unit 61) pads
  the last group.
\<close>

definition b64_char :: "nat \<Rightarrow> nat" where
  "b64_char n =
    (if n < 26 then 65 + n
     else if n < 52 then 97 + (n - 26)
     else if n < 62 then 48 + (n - 52)
     else if n = 62 then 43
     else 47)"

definition b64_value :: "nat \<Rightarrow> nat option" where
  "b64_value c =
    (if 65 \<le> c \<and> c \<le> 90 then Some (c - 65)
     else if 97 \<le> c \<and> c \<le> 122 then Some (c - 97 + 26)
     else if 48 \<le> c \<and> c \<le> 57 then Some (c - 48 + 52)
     else if c = 43 then Some 62
     else if c = 47 then Some 63
     else None)"

text \<open>Three bytes give four digits; one or two bytes left over give a padded group.\<close>

fun b64_encode :: "nat list \<Rightarrow> js_string" where
  "b64_encode (a # b # c # rest) =
     b64_char (a div 4) # b64_char (a mod 4 * 16 + b div 16) #
     b64_char (b mod 16 * 4 + c div 64) # b64_char (c mod 64) # b64_encode rest"
| "b64_encode [a, b] =
     [b64_char (a div 4), b64_char (a mod 4 * 16 + b div 16), b64_char (b mod 16 * 4), 61]"
| "b64_encode [a] = [b64_char (a div 4), b64_char (a mod 4 * 16), 61, 61]"
| "b64_encode [] = []"

text \<open>\<open>btoa\<close> throws \<open>InvalidCharacterError\<close> for a code unit above 255.\<close>

definition btoa :: "js_string \<Rightarrow> js_exception + js_string" where
  "btoa s = (if list_ex (\<lambda>c. 255 < c) s then Inl InvalidCharacterError else Inr (b64_encode s))"

text \<open>
  \<open>atob\<close> is the standard's forgiving decoding: ASCII whitespace is removed; when the
  length is then a multiple of 4, one or two \<open>=\<close> at the end are removed; a length
  with remainder 1 modulo 4 or a code unit that is not a digit is an
  \<open>InvalidCharacterError\<close>; four digits give three bytes, and of a last group of two or
  three digits the bits beyond whole bytes are discarded.
\<close>

definition ascii_whitespace :: "nat \<Rightarrow> bool" where
  "ascii_whitespace c = (c = 9 \<or> c = 10 \<or> c = 12 \<or> c = 13 \<or> c = 32)"

definition strip_padding :: "js_string \<Rightarrow> js_string" where
  "strip_padding d =
    (if length d mod 4 = 0 then
       (if 2 \<le> length d \<and> last d = 61 \<and> last (butlast d) = 61 then butlast (butlast d)
        else if 1 \<le> length d \<and> last d = 61 then butlast d
        else d)
     else d)"

fun b64_values :: "js_string \<Rightarrow> nat list option" where
  "b64_values [] = Some []"
| "b64_values (c # cs) =
    (case b64_value c of
       None \<Rightarrow> None
     | Some v \<Rightarrow> (case b64_values cs of None \<Rightarrow> None | Some vs \<Rightarrow> Some (v # vs)))"

fun b64_decode :: "nat list \<Rightarrow> js_string" where
  "b64_decode (w # x # y # z # rest) =
     (w * 4 + x div 16) # (x mod 16 * 16 + y div 4) # (y mod 4 * 64 + z) # b64_decode rest"
| "b64_decode [w, x, y] = [w * 4 + x div 16, x mod 16 * 16 + y div 4]"
| "b64_decode [w, x] = [w * 4 + x div 16]"
| "b64_decode [w] = []"
| "b64_decode [] = []"

definition atob :: "js_string \<Rightarrow> js_exception + js_string" where
  "atob s =
    (let d = strip_padding (filter (\<lambda>c. \<not> ascii_whitespace c) s)
     in if length d mod 4 = 1 then Inl InvalidCharacterError
        else (case b64_values d of
                None \<Rightarrow> Inl InvalidCharacterError
              | Some vs \<Rightarrow> Inr (b64_decode vs)))"

subsection \<open>encode and decode\<close>

text \<open>
  \<open>encode\<close> appends \<open>String.fromCharCode(bytes[i])\<close> for every \<open>i\<close> below
  \<open>bytes.byteLength\<close>, in order, and passes the text to \<open>btoa\<close>.
\<close>

definition encode :: "Uint8Array \<Rightarrow> js_exception + js_string" where
  "encode bytes = btoa (map unat (bytes_of bytes))"

text \<open>
  \<open>decode\<close> stores \<open>binaryString.charCodeAt(i)\<close> at index \<open>i\<close> of a new \<open>Uint8Array\<close>
  of the same length; a \<open>Uint8Array\<close> keeps the low eight bits of what is stored.
\<close>

definition decode :: "js_string \<Rightarrow> js_exception + Uint8Array" where
  "decode base64 =
    (case atob base64 of
       Inl e \<Rightarrow> Inl e
     | Inr binaryString \<Rightarrow> Inr (new_Uint8Array (map of_nat binaryString)))"

text \<open>The digits of the encoding without the padding, as numbers.\<close>

fun sextets :: "nat list \<Rightarrow> nat list" where
  "sextets (a # b # c # rest) =
     a div 4 # (a mod 4 * 16 + b div 16) # (b mod 16 * 4 + c div 64) # c mod 64 # sextets rest"
| "sextets [a, b] = [a div 4, a mod 4 * 16 + b div 16, b mod 16 * 4]"
| "sextets [a] = [a div 4, a mod 4 * 16]"
| "sextets [] = []"

text \<open>The number of padding signs of the encoding.\<close>

fun padding :: "nat list \<Rightarrow> nat" where
  "padding (a # b # c # rest) = padding rest"
| "padding [a, b] = 1"
| "padding [a] = 2"
| "padding [] = 0"


section \<open>The lesson history\<close>

subsection \<open>Records, dates and the store\<close>

text \<open>
  A lesson record as \<open>saveLessonRecord\<close> writes it. Its \<open>date\<close> is the text that
  \<open>toISOString()\<close> produces; the model keeps the instant this text denotes, in
  milliseconds since the epoch. \<open>new Date(record.date).getTime()\<close> is that instant, and
  \<open>record.date.split('T')[0]\<close>, the UTC calendar day, is represented by the number of
  the day. The CEFR level is one of nine fixed texts and is kept as a text.
\<close>

record LessonRecord =
  lessonId :: js_string
  date :: int
  theme :: js_string
  level :: js_string
  childName :: js_string
  score :: real
  pronunciation :: real
  fluency :: real
  intonation :: real
  vocabulary :: real
  grammar :: real
  taskFulfillment :: real
  perceivedLevel :: js_string
  duration :: real

definition msPerDay :: int where
  "msPerDay = 1000 * 60 * 60 * 24"

definition EXPIRY_DAYS :: real where
  "EXPIRY_DAYS = 7"

text \<open>The day of an instant: what \<open>toISOString().split('T')[0]\<close> names.\<close>

definition dayOf :: "int \<Rightarrow> int" where
  "dayOf t = t div msPerDay"

text \<open>
  What \<open>localStorage\<close> holds under \<open>speakpro_lesson_history\<close>, by what \<open>JSON.parse\<close>
  makes of it: a text that is not JSON (a \<open>SyntaxError\<close>; the empty text is among
  them and is also caught by \<open>!data\<close>), JSON that is not an array (calling \<open>filter\<close> on
  it is a \<open>TypeError\<close>), or an array of records. Writing \<open>JSON.stringify(records)\<close>
  stores the array. \<open>None\<close> is the absent key, for which \<open>getItem\<close> returns \<open>null\<close>.
\<close>

datatype stored = InvalidJson | NonArrayJson | RecordsJson "LessonRecord list"

type_synonym storage = "stored option"

datatype history_error = SyntaxError | TypeError

subsection \<open>getLessonHistory\<close>

text \<open>The statements inside \<open>try\<close>, with the exceptions they can raise as values.\<close>

definition getLessonHistory_try ::
  "int \<Rightarrow> storage \<Rightarrow> history_error + (LessonRecord list \<times> storage)" where
  "getLessonHistory_try now st =
    (case st of
       None \<Rightarrow> Inr ([], st)
     | Some InvalidJson \<Rightarrow> Inl SyntaxError
     | Some NonArrayJson \<Rightarrow> Inl TypeError
     | Some (RecordsJson records) \<Rightarrow>
         (let validRecords =
                filter (\<lambda>record.
                  (let diffDays = real_of_int (now - date record) / real_of_int msPerDay
                   in diffDays \<le> EXPIRY_DAYS)) records
          in if length validRecords \<noteq> length records
             then Inr (validRecords, Some (RecordsJson validRecords))
             else Inr (validRecords, st)))"

text \<open>\<open>catch { return []; }\<close> turns every exception into the empty list.\<close>

definition getLessonHistory :: "int \<Rightarrow> storage \<Rightarrow> LessonRecord list \<times> storage" where
  "getLessonHistory now st =
    (case getLessonHistory_try now st of Inl e \<Rightarrow> ([], st) | Inr r \<Rightarrow> r)"

subsection \<open>getLessonsGroupedByDay\<close>

text \<open>
  A \<open>Map\<close> keeps its entries in insertion order: an association list. \<open>set\<close> replaces
  the value of a key that is present and appends a new key; \<open>get(k).push(x)\<close> extends
  the list stored under \<open>k\<close>.
\<close>

type_synonym day_map = "(int \<times> LessonRecord list) list"

fun map_set :: "int \<Rightarrow> LessonRecord list \<Rightarrow> day_map \<Rightarrow> day_map" where
  "map_set k v [] = [(k, v)]"
| "map_set k v ((k', v') # m) = (if k' = k then (k, v) # m else (k', v') # map_set k v m)"

definition map_has :: "int \<Rightarrow> day_map \<Rightarrow> bool" where
  "map_has k m = (k \<in> set (map fst m))"

fun map_push :: "int \<Rightarrow> LessonRecord \<Rightarrow> day_map \<Rightarrow> day_map" where
  "map_push k x [] = []"
| "map_push k x ((k', v') # m) =
    (if k' = k then (k', v' @ [x]) # m else (k', v') # map_push k x m)"

text \<open>
  The local time zone of the browser: the offset of local time from UTC in
  milliseconds, at a UTC instant (second argument \<open>True\<close>) or at a local time (second
  argument \<open>False\<close>). It is the \<open>LocalTZA\<close> of the language standard and a parameter
  of every function that uses local dates.
\<close>

type_synonym time_zone = "int \<Rightarrow> bool \<Rightarrow> int"

text \<open>
  \<open>const date = new Date(); date.setDate(date.getDate() - i)\<close>: the local time of
  \<open>now\<close> is moved back by \<open>i\<close> calendar days, keeping the local time of day, and
  the result is converted back to UTC with the offset in force at that local time.
\<close>

definition setDate_back :: "time_zone \<Rightarrow> int \<Rightarrow> int \<Rightarrow> int" where
  "setDate_back tz now i =
    (let localTime = now + tz now True;
         newDate = localTime - i * msPerDay
     in newDate - tz newDate False)"

text \<open>
  The loop \<open>for (let i = 6; i >= 0; i--)\<close>: the key is the UTC day (\<open>toISOString\<close>)
  of the date moved back in local time.
\<close>

fun create_entries :: "time_zone \<Rightarrow> int \<Rightarrow> nat \<Rightarrow> day_map \<Rightarrow> day_map" where
  "create_entries tz now 0 grouped = map_set (dayOf (setDate_back tz now 0)) [] grouped"
| "create_entries tz now (Suc i) grouped =
    create_entries tz now i (map_set (dayOf (setDate_back tz now (int (Suc i)))) [] grouped)"

text \<open>\<open>history.forEach\<close>: a lesson whose day has no entry is skipped.\<close>

fun populate :: "LessonRecord list \<Rightarrow> day_map \<Rightarrow> day_map" where
  "populate [] grouped = grouped"
| "populate (lesson # rest) grouped =
    (let dateKey = dayOf (date lesson)
     in populate rest
          (if map_has dateKey grouped then map_push dateKey lesson grouped else grouped))"

text \<open>
  Scores are doubles, and \<open>+\<close>, \<open>*\<close> and \<open>/\<close> on doubles round their results. The
  model does not carry out this rounding: the three operations are parameters of the
  functions that average. \<open>Math.round\<close> rounds a double to the nearest integer, halves
  upwards, and is exact.
\<close>

record double_arith =
  plus_d :: "real \<Rightarrow> real \<Rightarrow> real"
  times_d :: "real \<Rightarrow> real \<Rightarrow> real"
  divide_d :: "real \<Rightarrow> real \<Rightarrow> real"

definition Math_round :: "real \<Rightarrow> real" where
  "Math_round x = real_of_int \<lfloor>x + 1 / 2\<rfloor>"

text \<open>\<open>Math.round(x / count * 10) / 10\<close>, evaluated from left to right.\<close>

definition round_tenth :: "double_arith \<Rightarrow> real \<Rightarrow> nat \<Rightarrow> real" where
  "round_tenth fp x count =
    divide_d fp (Math_round (times_d fp (divide_d fp x (real count)) 10)) 10"

record day_group =
  dateKey :: int
  lessons :: "LessonRecord list"
  avgScore :: real

definition day_entry :: "double_arith \<Rightarrow> int \<times> LessonRecord list \<Rightarrow> day_group" where
  "day_entry fp e =
    (case e of (d, ls) \<Rightarrow>
       \<lparr>dateKey = d, lessons = ls,
        avgScore = (if length ls > 0
                    then round_tenth fp (foldl (\<lambda>sum l. plus_d fp sum (score l)) 0 ls) (length ls)
                    else 0)\<rparr>)"

definition getLessonsGroupedByDay ::
  "double_arith \<Rightarrow> time_zone \<Rightarrow> int \<Rightarrow> storage \<Rightarrow> day_group list \<times> storage" where
  "getLessonsGroupedByDay fp tz now st =
    (case getLessonHistory now st of
       (history, st') \<Rightarrow>
         (map (day_entry fp) (populate history (create_entries tz now 6 [])), st'))"

subsection \<open>getWeeklySkillAverages and getRecentLessons\<close>

record skill_totals =
  pronunciation_t :: real
  fluency_t :: real
  intonation_t :: real
  vocabulary_t :: real
  grammar_t :: real
  taskFulfillment_t :: real
  totalLessons :: nat
  totalTime :: real

definition add_lesson :: "double_arith \<Rightarrow> skill_totals \<Rightarrow> LessonRecord \<Rightarrow> skill_totals" where
  "add_lesson fp acc lesson =
    acc\<lparr>pronunciation_t := plus_d fp (pronunciation_t acc) (pronunciation lesson),
        fluency_t := plus_d fp (fluency_t acc) (fluency lesson),
        intonation_t := plus_d fp (intonation_t acc) (intonation lesson),
        vocabulary_t := plus_d fp (vocabulary_t acc) (vocabulary lesson),
        grammar_t := plus_d fp (grammar_t acc) (grammar lesson),
        taskFulfillment_t := plus_d fp (taskFulfillment_t acc) (taskFulfillment lesson),
        totalTime := plus_d fp (totalTime acc) (duration lesson)\<rparr>"

definition no_lessons :: skill_totals where
  "no_lessons =
    \<lparr>pronunciation_t = 0, fluency_t = 0, intonation_t = 0, vocabulary_t = 0, grammar_t = 0,
     taskFulfillment_t = 0, totalLessons = 0, totalTime = 0\<rparr>"

definition getWeeklySkillAverages ::
  "double_arith \<Rightarrow> int \<Rightarrow> storage \<Rightarrow> skill_totals \<times> storage" where
  "getWeeklySkillAverages fp now st =
    (case getLessonHistory now st of
       (history, st') \<Rightarrow>
         if length history = 0 then (no_lessons, st')
         else
           (let sum = foldl (add_lesson fp) no_lessons history;
                count = length history
            in (\<lparr>pronunciation_t = round_tenth fp (pronunciation_t sum) count,
                 fluency_t = round_tenth fp (fluency_t sum) count,
                 intonation_t = round_tenth fp (intonation_t sum) count,
                 vocabulary_t = round_tenth fp (vocabulary_t sum) count,
                 grammar_t = round_tenth fp (grammar_t sum) count,
                 taskFulfillment_t = round_tenth fp (taskFulfillment_t sum) count,
                 totalLessons = count,
                 totalTime = totalTime sum\<rparr>, st')))"

text \<open>
  \<open>history.slice(-limit).reverse()\<close>: a negative start counts from the end, \<open>-0\<close> is
  0, and a start beyond either end is clamped.
\<close>

definition slice_from :: "int \<Rightarrow> 'a list \<Rightarrow> 'a list" where
  "slice_from start xs =
    (if start < 0 then drop (nat (max (int (length xs) + start) 0)) xs else drop (nat start) xs)"

definition getRecentLessons :: "int \<Rightarrow> int \<Rightarrow> storage \<Rightarrow> LessonRecord list \<times> storage" where
  "getRecentLessons limit now st =
    (case getLessonHistory now st of (history, st') \<Rightarrow> (rev (slice_from (- limit) history), st'))"

subsection \<open>getDailyStreak\<close>

text \<open>
  The loop \<open>for (let i = grouped.length - 1; i >= 0; i--)\<close>: the second argument is
  \<open>i + 1\<close>, so that 0 ends the loop.
\<close>

fun streak_loop :: "day_group list \<Rightarrow> nat \<Rightarrow> nat \<Rightarrow> nat" where
  "streak_loop grouped 0 streak = streak"
| "streak_loop grouped (Suc i) streak =
    (if length (lessons (grouped ! i)) > 0 then streak_loop grouped i (streak + 1)
     else if int i = int (length grouped) - 1 then streak_loop grouped i streak
     else streak)"

definition getDailyStreak ::
  "double_arith \<Rightarrow> time_zone \<Rightarrow> int \<Rightarrow> storage \<Rightarrow> nat \<times> storage" where
  "getDailyStreak fp tz now st =
    (case getLessonsGroupedByDay fp tz now st of
       (grouped, st') \<Rightarrow> (streak_loop grouped (length grouped) 0, st'))"

subsection \<open>Concrete time zones, arithmetic and histories\<close>

text \<open>A zone whose clock never changes, such as Vietnam's, seven hours ahead of UTC.\<close>

definition fixed_zone :: "int \<Rightarrow> time_zone" where
  "fixed_zone offset = (\<lambda>t isUTC. offset)"

definition vietnam :: time_zone where
  "vietnam = fixed_zone (7 * 60 * 60 * 1000)"

text \<open>
  New York around the end of daylight saving time in 2026: four hours behind UTC
  before 2026-11-01T06:00Z and five hours behind from then on. A local time that occurs
  twice is read with the offset before the change, as the language standard has it.
\<close>

definition newYork :: time_zone where
  "newYork t isUTC =
    (if isUTC then (if t < 1793512800000 then - 14400000 else - 18000000)
     else (if t < 1793512800000 - 14400000 then - 14400000 else - 18000000))"




text \<open>An arithmetic without rounding, for evaluations in which no rounding occurs.\<close>

definition exactArith :: double_arith where
  "exactArith = \<lparr>plus_d = (+), times_d = (*), divide_d = (/)\<rparr>"

definition lessonAt :: "int \<Rightarrow> LessonRecord" where
  "lessonAt t =
    \<lparr>lessonId = lit ''lesson'', date = t, theme = lit ''Animals'', level = lit ''A1'',
     childName = lit ''An'', score = 8, pronunciation = 8, fluency = 8, intonation = 8,
     vocabulary = 8, grammar = 8, taskFulfillment = 8, perceivedLevel = lit ''C1'',
     duration = 60\<rparr>"

text \<open>An instant one second into a day.\<close>

definition someNow :: int where
  "someNow = 20 * msPerDay + 1000"

text \<open>Whether some record of the list is dated on the day \<open>k\<close> days before today.\<close>

definition has_lesson :: "int \<Rightarrow> LessonRecord list \<Rightarrow> nat \<Rightarrow> bool" where
  "has_lesson now records k = (filter (\<lambda>r. dayOf (date r) = dayOf now - int k) records \<noteq> [])"


section \<open>Properties of the retry wrapper\<close>

subsection \<open>Classification\<close>

lemma lit_429: "lit ''429'' = [52, 50, 57]"
  by (simp add: lit_def)

lemma startsWith_429_lower:
  "startsWith (toLowerCase s) [52, 50, 57] = startsWith s [52, 50, 57]"
proof (cases s)
  case Nil
  then show ?thesis by (simp add: toLowerCase_def)
next
  case s: (Cons a s1)
  show ?thesis
  proof (cases s1)
    case Nil
    with s show ?thesis by (auto simp add: toLowerCase_def)
  next
    case s1: (Cons b s2)
    show ?thesis
    proof (cases s2)
      case Nil
      with s s1 show ?thesis by (auto simp add: toLowerCase_def)
    next
      case (Cons c s3)
      with s s1 show ?thesis by (auto simp add: toLowerCase_def)
    qed
  qed
qed

lemma includes_429_lower:
  "js_includes (toLowerCase s) [52, 50, 57] = js_includes s [52, 50, 57]"
proof (induction s)
  case Nil
  show ?case by (simp add: toLowerCase_def)
next
  case (Cons c cs)
  have "js_includes (toLowerCase (c # cs)) [52, 50, 57] =
        (startsWith (toLowerCase (c # cs)) [52, 50, 57] \<or>
         js_includes (toLowerCase cs) [52, 50, 57])"
    by (simp add: toLowerCase_def)
  then show ?case using Cons startsWith_429_lower[of "c # cs"] by simp
qed

text \<open>
  Lower-casing the message before looking for \<open>429\<close> changes nothing: both copies of the
  service classify every error alike.
\<close>

lemma isQuotaError_part0_eq: "isQuotaError_part0 e = isQuotaError e"
proof (cases "message e")
  case None
  then show ?thesis by (simp add: isQuotaError_part0_def isQuotaError_def Let_def lit_429)
next
  case (Some m)
  have "js_includes (if toLowerCase m = [] then [] else toLowerCase m) [52, 50, 57] =
        js_includes m [52, 50, 57]"
    using includes_429_lower[of m] by simp
  with Some show ?thesis by (simp add: isQuotaError_part0_def isQuotaError_def Let_def lit_429)
qed

lemma isQuotaError_quotaError429: "isQuotaError quotaError429"
  by (simp add: isQuotaError_def quotaError429_def)

lemma not_isQuotaError_badRequest: "\<not> isQuotaError badRequest"
  by (simp add: isQuotaError_def badRequest_def lit_def toLowerCase_def)

subsection \<open>Traces\<close>

lemma attempts_append: "attempts (xs @ ys) = attempts xs + attempts ys"
  by (simp add: attempts_def)

lemma attempts_backoff: "attempts (backoff n d) = n"
  by (induction n arbitrary: d) (auto simp: attempts_def)

lemma waits_append: "waits (xs @ ys) = waits xs @ waits ys"
  by (induction xs rule: waits.induct) auto

lemma waits_backoff: "waits (backoff n d) = map (\<lambda>k. d * 2.5 ^ k) [0..<n]"
proof (induction n arbitrary: d)
  case 0
  show ?case by simp
next
  case (Suc n)
  have "map (\<lambda>k. d * 2.5 ^ k) [0..<Suc n] = d # map (\<lambda>k. (d * 2.5) * 2.5 ^ k) [0..<n]"
    by (simp add: upt_conv_Cons map_Suc_upt[symmetric] del: upt_Suc)
  then show ?case using Suc.IH[of "d * 2.5"] by simp
qed

subsection \<open>The loop when every attempt left is a quota failure\<close>

lemma loop_all_quota:
  assumes "int i < m"
    and "\<forall>k. i \<le> k \<and> int k < m \<longrightarrow> fn k = Reject (errs k) \<and> isQuotaError (errs k)"
  shows "callWithRetry_loop fn m i d tr =
    \<lparr>outcome = Inl (Rethrown (errs (nat m - 1))),
     trace = tr @ backoff (nat m - 1 - i) d @ [Attempt]\<rparr>"
  using assms
proof (induction "nat m - 1 - i" arbitrary: i d tr)
  case 0
  then have "\<not> int i < m - 1" and "nat m - 1 = i" and "fn i = Reject (errs i)"
    by auto
  with 0 show ?case by (subst callWithRetry_loop.simps) simp
next
  case (Suc n)
  then have lt: "int i < m - 1" by auto
  have q: "fn i = Reject (errs i)" "isQuotaError (errs i)" using Suc.prems by auto
  have n: "n = nat m - 1 - Suc i" using Suc.hyps by auto
  have p1: "int (Suc i) < m" using lt by simp
  have p2: "\<forall>k. Suc i \<le> k \<and> int k < m \<longrightarrow> fn k = Reject (errs k) \<and> isQuotaError (errs k)"
    using Suc.prems(2) by simp
  have b: "backoff (nat m - 1 - i) d = Attempt # Wait d # backoff (nat m - 1 - Suc i) (d * 2.5)"
    using Suc.hyps(2) n by (metis backoff.simps(2))
  show ?case
    using lt q Suc.prems(1) b Suc.hyps(1)[OF n p1 p2, of "d * 2.5" "tr @ [Attempt, Wait d]"]
    by (subst callWithRetry_loop.simps) simp
qed

lemma loop_part0_all_quota:
  assumes "int i < m"
    and "\<forall>k. i \<le> k \<and> int k < m \<longrightarrow> fn k = Reject (errs k) \<and> isQuotaError (errs k)"
  shows "callWithRetry_part0_loop fn m i d le tr =
    \<lparr>outcome = Inl (exhausted_part0 (Some (errs (nat m - 1)))),
     trace = tr @ backoff (nat m - 1 - i) d @ [Attempt]\<rparr>"
  using assms
proof (induction "nat m - 1 - i" arbitrary: i d le tr)
  case 0
  then have a: "\<not> int i < m - 1" "nat m - 1 = i" "fn i = Reject (errs i)"
    "isQuotaError (errs i)" "\<not> int (Suc i) < m"
    by auto
  have "callWithRetry_part0_loop fn m (Suc i) d (Some (errs i)) (tr @ [Attempt]) =
    \<lparr>outcome = Inl (exhausted_part0 (Some (errs i))), trace = tr @ [Attempt]\<rparr>"
    using a(5) by (subst callWithRetry_part0_loop.simps) simp
  with 0 a show ?case
    by (subst callWithRetry_part0_loop.simps) (simp add: isQuotaError_part0_eq)
next
  case (Suc n)
  then have lt: "int i < m - 1" by auto
  have q: "fn i = Reject (errs i)" "isQuotaError (errs i)" using Suc.prems by auto
  have n: "n = nat m - 1 - Suc i" using Suc.hyps by auto
  have p1: "int (Suc i) < m" using lt by simp
  have p2: "\<forall>k. Suc i \<le> k \<and> int k < m \<longrightarrow> fn k = Reject (errs k) \<and> isQuotaError (errs k)"
    using Suc.prems(2) by simp
  have b: "backoff (nat m - 1 - i) d = Attempt # Wait d # backoff (nat m - 1 - Suc i) (d * 2.5)"
    using Suc.hyps(2) n by (metis backoff.simps(2))
  show ?case
    using lt q Suc.prems(1) b
      Suc.hyps(1)[OF n p1 p2, of "d * 2.5" "Some (errs i)" "tr @ [Attempt, Wait d]"]
    by (subst callWithRetry_part0_loop.simps) (simp add: isQuotaError_part0_eq)
qed

subsection \<open>Retry budget exhausted\<close>

text \<open>
  Claim C1, as the code has it. Let the retry budget be at least 1 and let every attempt
  within the budget fail with a quota error. Both copies of \<open>callWithRetry\<close> invoke the
  operation exactly \<open>maxRetries\<close> times, waiting after every attempt but the last, and
  then reject. \<open>src/services/geminiService.ts\<close> rethrows the error of the last attempt
  itself, as it does for an error that is not a quota error. The copy in
  \<open>src/unnamed/part_000\<close> throws a new error: the server-busy one when the message of
  the last error contains \<open>quota\<close> or \<open>429\<close>, and the error prefix followed by that
  message (or by \<open>Unknown error\<close>) otherwise.
\<close>

theorem callWithRetry_exhausted:
  assumes "0 < maxRetries"
    and "\<forall>k. int k < maxRetries \<longrightarrow> fn k = Reject (errs k) \<and> isQuotaError (errs k)"
  shows "outcome (callWithRetry fn maxRetries) = Inl (Rethrown (errs (nat maxRetries - 1))) \<and>
    attempts (trace (callWithRetry fn maxRetries)) = nat maxRetries \<and>
    length (waits (trace (callWithRetry fn maxRetries))) = nat maxRetries - 1 \<and>
    outcome (callWithRetry_part0 fn maxRetries) =
      Inl (exhausted_part0 (Some (errs (nat maxRetries - 1)))) \<and>
    attempts (trace (callWithRetry_part0 fn maxRetries)) = nat maxRetries \<and>
    length (waits (trace (callWithRetry_part0 fn maxRetries))) = nat maxRetries - 1"
proof -
  have a: "int 0 < maxRetries" using assms(1) by simp
  have b: "\<forall>k. 0 \<le> k \<and> int k < maxRetries \<longrightarrow> fn k = Reject (errs k) \<and> isQuotaError (errs k)"
    using assms(2) by simp
  have n: "nat maxRetries - 1 + 1 = nat maxRetries" using assms(1) by simp
  have r1: "callWithRetry fn maxRetries =
      \<lparr>outcome = Inl (Rethrown (errs (nat maxRetries - 1))),
       trace = backoff (nat maxRetries - 1) 1500 @ [Attempt]\<rparr>"
    unfolding callWithRetry_def using loop_all_quota[OF a b, of 1500 "[]"] by simp
  have r2: "callWithRetry_part0 fn maxRetries =
      \<lparr>outcome = Inl (exhausted_part0 (Some (errs (nat maxRetries - 1)))),
       trace = backoff (nat maxRetries - 1) 1500 @ [Attempt]\<rparr>"
    unfolding callWithRetry_part0_def using loop_part0_all_quota[OF a b, of 1500 None "[]"]
    by simp
  have "attempts [Attempt] = 1" by (simp add: attempts_def)
  then have t1: "attempts (backoff (nat maxRetries - 1) 1500 @ [Attempt]) = nat maxRetries"
    using n by (simp only: attempts_append attempts_backoff)
  have t2: "length (waits (backoff (nat maxRetries - 1) 1500 @ [Attempt])) = nat maxRetries - 1"
    by (simp add: waits_append waits_backoff)
  show ?thesis using t1 t2 by (simp only: r1 r2 run.simps)
qed

theorem callWithRetry_exhausted_witness:
  "outcome (callWithRetry (alwaysRejects quotaError429) 3) = Inl (Rethrown quotaError429) \<and>
   attempts (trace (callWithRetry (alwaysRejects quotaError429) 3)) = 3 \<and>
   length (waits (trace (callWithRetry (alwaysRejects quotaError429) 3))) = 2 \<and>
   outcome (callWithRetry_part0 (alwaysRejects quotaError429) 3) =
     Inl (NewError (errorPrefix @ lit ''Too Many Requests''))"
proof -
  have h1: "(0::int) < 3" by simp
  have h2: "\<forall>k. int k < 3 \<longrightarrow>
      alwaysRejects quotaError429 k = Reject ((\<lambda>_. quotaError429) k) \<and>
      isQuotaError ((\<lambda>_. quotaError429) k)"
    by (simp add: alwaysRejects_def isQuotaError_quotaError429)
  have e: "exhausted_part0 (Some quotaError429) = NewError (errorPrefix @ lit ''Too Many Requests'')"
    by (simp add: exhausted_part0_def quotaError429_def lit_def)
  show ?thesis using callWithRetry_exhausted[OF h1 h2] e by simp
qed

text \<open>
  Claim C1 as the specification states it fails on both copies: with a budget of 2 and
  an operation that always fails with status 429 and the message \<open>Too Many Requests\<close>,
  neither copy throws its server-busy error, and the first copy throws exactly what it
  throws for a failure that is not a quota error: the object it caught.
\<close>

theorem callWithRetry_exhausted_counterexample:
  "isQuotaError quotaError429 \<and>
   outcome (callWithRetry (alwaysRejects quotaError429) 2) = Inl (Rethrown quotaError429) \<and>
   outcome (callWithRetry (alwaysRejects quotaError429) 2) \<noteq> Inl (NewError serverBusyMessage) \<and>
   outcome (callWithRetry (alwaysRejects badRequest) 2) = Inl (Rethrown badRequest) \<and>
   outcome (callWithRetry_part0 (alwaysRejects quotaError429) 2) \<noteq>
     Inl (NewError serverBusyMessage_part0)"
  by (simp add: callWithRetry_def callWithRetry_part0_def callWithRetry_loop.simps
      callWithRetry_part0_loop.simps alwaysRejects_def isQuotaError_quotaError429
      not_isQuotaError_badRequest isQuotaError_part0_eq exhausted_part0_def
      quotaError429_def[THEN arg_cong, of message] errorPrefix_def serverBusyMessage_part0_def
      lit_def)

subsection \<open>Success after transient failures\<close>

text \<open>
  Claim C5. An operation that fails with a quota error on its first three attempts and
  resolves on the fourth, run with a retry budget of 4: \<open>callWithRetry\<close> resolves with
  the operation's own value, and between the four attempts it waits 1500, 3750 and 9375
  milliseconds, each wait 2.5 times the one before.
\<close>

theorem callWithRetry_succeeds_on_fourth:
  assumes "fn 0 = Reject e0" and "isQuotaError e0"
    and "fn 1 = Reject e1" and "isQuotaError e1"
    and "fn 2 = Reject e2" and "isQuotaError e2"
    and "fn 3 = Resolve v"
  shows "callWithRetry fn 4 =
      \<lparr>outcome = Inr v,
       trace = [Attempt, Wait 1500, Attempt, Wait 3750, Attempt, Wait 9375, Attempt]\<rparr> \<and>
    waits (trace (callWithRetry fn 4)) = [1500, 1500 * 2.5, 1500 * 2.5 * 2.5]"
proof -
  have s3: "callWithRetry_loop fn 4 3 d tr = \<lparr>outcome = Inr v, trace = tr @ [Attempt]\<rparr>"
    for d tr
    using assms(7) by (subst callWithRetry_loop.simps) simp
  have s2: "callWithRetry_loop fn 4 2 d tr =
      \<lparr>outcome = Inr v, trace = tr @ [Attempt, Wait d, Attempt]\<rparr>" for d tr
    using assms(5,6) s3[of "d * 2.5" "tr @ [Attempt, Wait d]"]
    by (subst callWithRetry_loop.simps) (simp add: numeral_3_eq_3 numeral_2_eq_2)
  have s1: "callWithRetry_loop fn 4 1 d tr =
      \<lparr>outcome = Inr v, trace = tr @ [Attempt, Wait d, Attempt, Wait (d * 2.5), Attempt]\<rparr>"
    for d tr
    using assms(3,4) s2[of "d * 2.5" "tr @ [Attempt, Wait d]"]
    by (subst callWithRetry_loop.simps) (simp add: numeral_2_eq_2)
  have s0: "callWithRetry_loop fn 4 0 d tr =
      \<lparr>outcome = Inr v,
       trace = tr @ [Attempt, Wait d, Attempt, Wait (d * 2.5), Attempt,
                     Wait (d * 2.5 * 2.5), Attempt]\<rparr>"
    for d tr
    using assms(1,2) s1[of "d * 2.5" "tr @ [Attempt, Wait d]"]
    by (subst callWithRetry_loop.simps) simp
  show ?thesis unfolding callWithRetry_def by (simp add: s0)
qed

theorem callWithRetry_succeeds_on_fourth_witness:
  "callWithRetry (rejectsThenResolves 3 quotaError429 (7::nat)) 4 =
    \<lparr>outcome = Inr 7,
     trace = [Attempt, Wait 1500, Attempt, Wait 3750, Attempt, Wait 9375, Attempt]\<rparr>"
proof -
  have r: "rejectsThenResolves 3 quotaError429 (7::nat) 0 = Reject quotaError429"
    "rejectsThenResolves 3 quotaError429 (7::nat) 1 = Reject quotaError429"
    "rejectsThenResolves 3 quotaError429 (7::nat) 2 = Reject quotaError429"
    "rejectsThenResolves 3 quotaError429 (7::nat) 3 = Resolve 7"
    by (simp_all add: rejectsThenResolves_def)
  show ?thesis
    using callWithRetry_succeeds_on_fourth[OF r(1) isQuotaError_quotaError429
        r(2) isQuotaError_quotaError429 r(3) isQuotaError_quotaError429 r(4)]
    by simp
qed

text \<open>The copy in \<open>src/unnamed/part_000\<close> behaves the same on such an operation.\<close>

lemma callWithRetry_part0_succeeds_on_fourth:
  assumes "fn 0 = Reject e0" and "isQuotaError e0"
    and "fn 1 = Reject e1" and "isQuotaError e1"
    and "fn 2 = Reject e2" and "isQuotaError e2"
    and "fn 3 = Resolve v"
  shows "callWithRetry_part0 fn 4 =
      \<lparr>outcome = Inr v,
       trace = [Attempt, Wait 1500, Attempt, Wait 3750, Attempt, Wait 9375, Attempt]\<rparr>"
proof -
  have s3: "callWithRetry_part0_loop fn 4 3 d le tr =
      \<lparr>outcome = Inr v, trace = tr @ [Attempt]\<rparr>" for d le tr
    using assms(7) by (subst callWithRetry_part0_loop.simps) simp
  have s2: "callWithRetry_part0_loop fn 4 2 d le tr =
      \<lparr>outcome = Inr v, trace = tr @ [Attempt, Wait d, Attempt]\<rparr>" for d le tr
    using assms(5,6) s3[of "d * 2.5" "Some e2" "tr @ [Attempt, Wait d]"]
    by (subst callWithRetry_part0_loop.simps)
      (simp add: numeral_3_eq_3 numeral_2_eq_2 isQuotaError_part0_eq)
  have s1: "callWithRetry_part0_loop fn 4 1 d le tr =
      \<lparr>outcome = Inr v, trace = tr @ [Attempt, Wait d, Attempt, Wait (d * 2.5), Attempt]\<rparr>"
    for d le tr
    using assms(3,4) s2[of "d * 2.5" "Some e1" "tr @ [Attempt, Wait d]"]
    by (subst callWithRetry_part0_loop.simps) (simp add: numeral_2_eq_2 isQuotaError_part0_eq)
  have s0: "callWithRetry_part0_loop fn 4 0 d le tr =
      \<lparr>outcome = Inr v,
       trace = tr @ [Attempt, Wait d, Attempt, Wait (d * 2.5), Attempt,
                     Wait (d * 2.5 * 2.5), Attempt]\<rparr>"
    for d le tr
    using assms(1,2) s1[of "d * 2.5" "Some e0" "tr @ [Attempt, Wait d]"]
    by (subst callWithRetry_part0_loop.simps) (simp add: isQuotaError_part0_eq)
  show ?thesis unfolding callWithRetry_part0_def by (simp add: s0)
qed

subsection \<open>A failure that is not a quota error\<close>

text \<open>
  Claim C6. Let the retry budget be at least 1 and let the first attempt fail with an
  error that is not classified as a quota error. Both copies of \<open>callWithRetry\<close> invoke
  the operation once, wait for nothing and reject. \<open>src/services/geminiService.ts\<close>
  rethrows the caught error itself, hence with its message. The copy in
  \<open>src/unnamed/part_000\<close> throws a new error whose message is the caught error's
  message whenever that message is present and not empty, and the API-error prefix
  followed by the serialised error otherwise.
\<close>

theorem callWithRetry_permanent:
  assumes "0 < maxRetries" and "fn 0 = Reject e" and "\<not> isQuotaError e"
  shows "callWithRetry fn maxRetries = \<lparr>outcome = Inl (Rethrown e), trace = [Attempt]\<rparr> \<and>
    thrownMessage (Rethrown e) = message e \<and>
    callWithRetry_part0 fn maxRetries =
      \<lparr>outcome = Inl (NewError (orElse (message e) (apiErrorPrefix @ json e))),
       trace = [Attempt]\<rparr> \<and>
    (\<forall>m. message e = Some m \<and> m \<noteq> [] \<longrightarrow>
       thrownMessage (NewError (orElse (message e) (apiErrorPrefix @ json e))) = message e)"
proof -
  have "callWithRetry fn maxRetries = \<lparr>outcome = Inl (Rethrown e), trace = [Attempt]\<rparr>"
    unfolding callWithRetry_def using assms by (subst callWithRetry_loop.simps) simp
  moreover have "callWithRetry_part0 fn maxRetries =
      \<lparr>outcome = Inl (NewError (orElse (message e) (apiErrorPrefix @ json e))),
       trace = [Attempt]\<rparr>"
    unfolding callWithRetry_part0_def using assms
    by (subst callWithRetry_part0_loop.simps) (simp add: isQuotaError_part0_eq)
  ultimately show ?thesis by auto
qed

theorem callWithRetry_permanent_witness:
  "callWithRetry (alwaysRejects badRequest) 4 =
     \<lparr>outcome = Inl (Rethrown badRequest), trace = [Attempt]\<rparr> \<and>
   callWithRetry_part0 (alwaysRejects badRequest) 4 =
     \<lparr>outcome = Inl (NewError (lit ''Bad Request'')), trace = [Attempt]\<rparr> \<and>
   thrownMessage (NewError (lit ''Bad Request'')) = message badRequest"
proof -
  have h1: "(0::int) < 4" by simp
  have h2: "alwaysRejects badRequest 0 = Reject badRequest" by (simp add: alwaysRejects_def)
  have m: "message badRequest = Some (lit ''Bad Request'')" "lit ''Bad Request'' \<noteq> []"
    by (simp_all add: badRequest_def lit_def)
  show ?thesis
    using callWithRetry_permanent[of 4 "alwaysRejects badRequest" badRequest,
        OF h1 h2 not_isQuotaError_badRequest] m
    by simp
qed

subsection \<open>A retry budget of at most one\<close>

text \<open>
  Claim C7, as the code has it. With a retry budget of exactly 1, \<open>callWithRetry\<close>
  invokes the operation exactly once and never waits; when that attempt fails, it
  rethrows the failure at once. With a budget of 0 or less the loop body never runs:
  the operation is not invoked at all, nothing is waited for, and the call rejects with
  the server-busy error.
\<close>

theorem callWithRetry_small_budget:
  "(maxRetries = 1 \<longrightarrow>
      trace (callWithRetry fn maxRetries) = [Attempt] \<and>
      (\<forall>e. fn 0 = Reject e \<longrightarrow> outcome (callWithRetry fn maxRetries) = Inl (Rethrown e)) \<and>
      (\<forall>v. fn 0 = Resolve v \<longrightarrow> outcome (callWithRetry fn maxRetries) = Inr v)) \<and>
   (maxRetries \<le> 0 \<longrightarrow>
      callWithRetry fn maxRetries =
        \<lparr>outcome = Inl (NewError serverBusyMessage), trace = []\<rparr>)"
proof (intro conjI impI)
  assume "maxRetries \<le> 0"
  then show "callWithRetry fn maxRetries =
      \<lparr>outcome = Inl (NewError serverBusyMessage), trace = []\<rparr>"
    unfolding callWithRetry_def by (subst callWithRetry_loop.simps) simp
next
  assume m: "maxRetries = 1"
  have r: "callWithRetry fn 1 =
      (case fn 0 of Resolve v \<Rightarrow> \<lparr>outcome = Inr v, trace = [Attempt]\<rparr>
       | Reject err \<Rightarrow> \<lparr>outcome = Inl (Rethrown err), trace = [Attempt]\<rparr>)"
    unfolding callWithRetry_def
    by (subst callWithRetry_loop.simps) (simp split: settled.splits)
  show "trace (callWithRetry fn maxRetries) = [Attempt]"
    using m r by (simp split: settled.splits)
  show "\<forall>e. fn 0 = Reject e \<longrightarrow> outcome (callWithRetry fn maxRetries) = Inl (Rethrown e)"
    using m r by simp
  show "\<forall>v. fn 0 = Resolve v \<longrightarrow> outcome (callWithRetry fn maxRetries) = Inr v"
    using m r by simp
qed

theorem callWithRetry_small_budget_witness:
  "trace (callWithRetry (alwaysRejects quotaError429) 1) = [Attempt] \<and>
   outcome (callWithRetry (alwaysRejects quotaError429) 1) = Inl (Rethrown quotaError429) \<and>
   callWithRetry (alwaysRejects quotaError429) 0 =
     \<lparr>outcome = Inl (NewError serverBusyMessage), trace = []\<rparr>"
  using callWithRetry_small_budget[of 1 "alwaysRejects quotaError429"]
    callWithRetry_small_budget[of 0 "alwaysRejects quotaError429"]
  by (simp add: alwaysRejects_def)

text \<open>
  Claim C7 as the specification states it fails for a budget of 0: the operation is
  never attempted, not even when it would have resolved.
\<close>

theorem callWithRetry_small_budget_counterexample:
  "(0::int) \<le> 1 \<and>
   attempts (trace (callWithRetry (rejectsThenResolves 0 quotaError429 (7::nat)) 0)) = 0 \<and>
   attempts (trace (callWithRetry (rejectsThenResolves 0 quotaError429 (7::nat)) 0)) \<noteq> 1"
  by (simp add: callWithRetry_def callWithRetry_loop.simps attempts_def)

text \<open>
  The copy in \<open>src/unnamed/part_000\<close> makes no attempt either for a budget of 0 or
  less; with no last error to report, it throws the error prefix followed by
  \<open>Unknown error\<close>.
\<close>

lemma callWithRetry_part0_no_budget:
  "maxRetries \<le> 0 \<Longrightarrow>
   callWithRetry_part0 fn maxRetries =
     \<lparr>outcome = Inl (NewError (errorPrefix @ lit ''Unknown error'')), trace = []\<rparr>"
  unfolding callWithRetry_part0_def
  by (subst callWithRetry_part0_loop.simps) (simp add: exhausted_part0_def lit_def)


section \<open>Properties of the audio codec bridge\<close>

subsection \<open>The elements of the Int16Array\<close>








subsection \<open>The two loops\<close>







subsection \<open>Frames per channel, sample values and their range\<close>


lemma bytes_of_new_Uint8Array: "bytes_of (new_Uint8Array bs) = bs"
  by (simp add: bytes_of_def new_Uint8Array_def)







text \<open>
  The same input evaluated: ten samples on three channels give three frames per
  channel, and the tenth sample is dropped. The fourth pass of the inner loop writes past
  the end of each channel and has no effect.
\<close>

lemma int16_elements_tenSamples:
  "int16_elements (buffer tenSamples) = [0, 1, 2, 3, 4, 5, 6, 7, 8, 9]"
  by (simp add: tenSamples_def new_Uint8Array_def word_cat_eq)

lemma decodeAudioData_tenSamples:
  "decodeAudioData tenSamples webAudioContext 24000 3 =
    Inr \<lparr>sampleRate = 24000,
         channels = [[Num 0, Num (3 / 32768), Num (6 / 32768)],
                     [Num (1 / 32768), Num (4 / 32768), Num (7 / 32768)],
                     [Num (2 / 32768), Num (5 / 32768), Num (8 / 32768)]]\<rparr>"
proof -
  let ?d = "[0, 1, 2, 3, 4, 5, 6, 7, 8, 9] :: 16 word list"
  have fc: "fill_channel ?d 3 c (10 / 3) 0 [Num 0, Num 0, Num 0] =
      [sample_at ?d c, sample_at ?d (3 + c), sample_at ?d (6 + c)]" for c
    by (simp add: fill_channel.simps[of _ _ _ _ 0] fill_channel.simps[of _ _ _ _ "Suc 0"]
        fill_channel.simps[of _ _ _ _ "Suc (Suc 0)"] fill_channel.simps[of _ _ _ _ "Suc (Suc (Suc 0))"]
        fill_channel.simps[of _ _ _ _ "Suc (Suc (Suc (Suc 0)))"] typed_array_set_def)
  have dc: "decode_channels ?d 3 (10 / 3) 0
      \<lparr>sampleRate = 24000, channels = [[Num 0, Num 0, Num 0], [Num 0, Num 0, Num 0], [Num 0, Num 0, Num 0]]\<rparr> =
      Inr \<lparr>sampleRate = 24000,
         channels = [[Num 0, Num (3 / 32768), Num (6 / 32768)],
                     [Num (1 / 32768), Num (4 / 32768), Num (7 / 32768)],
                     [Num (2 / 32768), Num (5 / 32768), Num (8 / 32768)]]\<rparr>"
    by (simp add: decode_channels.simps[of _ _ _ 0] decode_channels.simps[of _ _ _ "Suc 0"]
        decode_channels.simps[of _ _ _ "Suc (Suc 0)"] decode_channels.simps[of _ _ _ "Suc (Suc (Suc 0))"]
        fc sample_at_def)
  have f: "nat \<lfloor>(10::real) / 3\<rfloor> = 3" by simp
  have cb: "createBuffer webAudioContext 3 (Num (10 / 3)) 24000 =
      Inr \<lparr>sampleRate = 24000, channels = replicate 3 (replicate 3 (Num 0))\<rparr>"
    using f by (simp add: webAudioContext_def to_unsigned_long_def)
  have len: "length (buffer tenSamples) = 20" by (simp add: tenSamples_def new_Uint8Array_def)
  show ?thesis
    using cb dc
    by (simp add: decodeAudioData_def new_Int16Array_def int16_elements_tenSamples len
        js_divide_def numeral_3_eq_3)
qed



subsection \<open>A byte sequence of odd length\<close>




subsection \<open>Base64 round trip\<close>

lemma b64_value_char: "n < 64 \<Longrightarrow> b64_value (b64_char n) = Some n"
  by (auto simp: b64_value_def b64_char_def)

lemma b64_char_not_padding: "b64_char n \<noteq> 61"
  by (auto simp: b64_char_def)

lemma b64_char_not_whitespace: "\<not> ascii_whitespace (b64_char n)"
  by (auto simp: b64_char_def ascii_whitespace_def)

lemma padding_not_whitespace: "\<not> ascii_whitespace 61"
  by (simp add: ascii_whitespace_def)

lemma b64_values_chars: "\<forall>v \<in> set vs. v < 64 \<Longrightarrow> b64_values (map b64_char vs) = Some vs"
  by (induction vs) (simp_all add: b64_value_char)

lemma b64_encode_sextets:
  "b64_encode s = map b64_char (sextets s) @ replicate (padding s) 61"
  by (induction s rule: b64_encode.induct) (simp_all add: numeral_2_eq_2)

lemma sextet_bounds:
  fixes a b c :: nat
  assumes "b < 256" and "c < 256"
  shows "a mod 4 * 16 + b div 16 < 64 \<and> b mod 16 * 4 + c div 64 < 64 \<and>
    a mod 4 * 16 < 64 \<and> b mod 16 * 4 < 64"
proof -
  have 1: "a mod 4 < 4" "b mod 16 < 16" by simp_all
  have 2: "b div 16 < 16" "c div 64 < 4" using assms by (simp_all add: less_mult_imp_div_less)
  show ?thesis using 1 2 by linarith
qed

lemma sextets_bound: "\<forall>a \<in> set s. a < 256 \<Longrightarrow> \<forall>v \<in> set (sextets s). v < 64"
proof (induction s rule: sextets.induct)
  case (1 a b c rest)
  have "a div 4 < 64" using 1(2) by (simp add: less_mult_imp_div_less)
  moreover have "c mod 64 < 64" by simp
  ultimately show ?case using 1 sextet_bounds[where a = a and b = b and c = c] by simp
next
  case (2 a b)
  have "a div 4 < 64" using 2 by (simp add: less_mult_imp_div_less)
  then show ?case using 2 sextet_bounds[where a = a and b = b and c = b] by simp
next
  case (3 a)
  have "a div 4 < 64" using 3 by (simp add: less_mult_imp_div_less)
  then show ?case using sextet_bounds[where a = a and b = a and c = a] 3 by simp
next
  case 4
  show ?case by simp
qed

lemma b64_decode_sextets: "\<forall>a \<in> set s. a < 256 \<Longrightarrow> b64_decode (sextets s) = s"
proof (induction s rule: sextets.induct)
  case (1 a b c rest)
  have b: "b div 16 < 16" and c: "c div 64 < 4" using 1(2) by (simp_all add: less_mult_imp_div_less)
  have "a div 4 * 4 + (a mod 4 * 16 + b div 16) div 16 = a" using b by simp
  moreover have "(a mod 4 * 16 + b div 16) mod 16 * 16 + (b mod 16 * 4 + c div 64) div 4 = b"
    using b c by simp
  moreover have "(b mod 16 * 4 + c div 64) mod 4 * 64 + c mod 64 = c" using c by simp
  ultimately show ?case using 1 by simp
next
  case (2 a b)
  have b: "b div 16 < 16" using 2 by (simp add: less_mult_imp_div_less)
  have "a div 4 * 4 + (a mod 4 * 16 + b div 16) div 16 = a" using b by simp
  moreover have "(a mod 4 * 16 + b div 16) mod 16 * 16 + (b mod 16 * 4) div 4 = b"
    using b by simp
  ultimately show ?case by simp
next
  case (3 a)
  have "a div 4 * 4 + (a mod 4 * 16) div 16 = a" by simp
  then show ?case by simp
next
  case 4
  show ?case by simp
qed

lemma sextets_length:
  "(length (sextets s) + padding s) mod 4 = 0 \<and> length (sextets s) mod 4 \<noteq> 1 \<and>
   padding s \<le> 2 \<and> (sextets s = [] \<longrightarrow> padding s = 0)"
proof (induction s rule: sextets.induct)
  case (1 a b c rest)
  have "Suc (Suc (Suc (Suc n))) mod 4 = n mod 4" for n :: nat
    using mod_add_self2[of n 4] by simp
  with 1 show ?case by simp
qed simp_all

lemma strip_padding_append:
  assumes "(length x + p) mod 4 = 0" and "p \<le> 2" and "x = [] \<longrightarrow> p = 0"
    and "x \<noteq> [] \<longrightarrow> last x \<noteq> 61"
  shows "strip_padding (x @ replicate p 61) = x"
proof -
  consider "p = 0" | "p = 1" | "p = 2" using assms(2) by linarith
  then show ?thesis
  proof cases
    case 1
    then show ?thesis using assms by (cases "x = []") (auto simp: strip_padding_def)
  next
    case 2
    then have x: "x \<noteq> []" using assms(3) by auto
    have "strip_padding (x @ [61]) = x"
      using assms(1,4) x 2 by (simp add: strip_padding_def butlast_append)
    then show ?thesis using 2 by simp
  next
    case 3
    then have x: "x \<noteq> []" using assms(3) by auto
    have r: "replicate p (61::nat) = [61, 61]" using 3 by (simp add: numeral_2_eq_2)
    have "butlast (x @ [61, 61::nat]) = x @ [61]" by (simp add: butlast_append)
    then have "strip_padding (x @ [61, 61]) = x"
      using assms(1) 3 by (simp add: strip_padding_def)
    then show ?thesis using r by simp
  qed
qed

lemma atob_b64_encode:
  assumes "\<forall>a \<in> set s. a < 256"
  shows "atob (b64_encode s) = Inr s"
proof -
  let ?x = "map b64_char (sextets s)"
  have ws: "filter (\<lambda>c. \<not> ascii_whitespace c) (b64_encode s) = b64_encode s"
    unfolding b64_encode_sextets
    by (auto simp: filter_id_conv b64_char_not_whitespace padding_not_whitespace)
  have len: "(length ?x + padding s) mod 4 = 0" "length ?x mod 4 \<noteq> 1" "padding s \<le> 2"
    "?x = [] \<longrightarrow> padding s = 0"
    using sextets_length[of s] by simp_all
  have lastx: "?x \<noteq> [] \<longrightarrow> last ?x \<noteq> 61"
    by (simp add: last_map b64_char_not_padding)
  have sp: "strip_padding (b64_encode s) = ?x"
    unfolding b64_encode_sextets by (rule strip_padding_append[OF len(1,3,4) lastx])
  have vals: "b64_values ?x = Some (sextets s)"
    by (rule b64_values_chars[OF sextets_bound[OF assms]])
  show ?thesis
    using len(2) by (simp add: atob_def ws sp vals b64_decode_sextets[OF assms])
qed

text \<open>
  Claim C4. For every array \<open>b\<close>, \<open>encode\<close> returns a text, and \<open>decode\<close> of that text
  returns a new array with the same byte sequence as \<open>b\<close>.
\<close>

theorem decode_encode:
  "\<exists>t b'. encode b = Inr t \<and> decode t = Inr b' \<and> bytes_of b' = bytes_of b \<and>
     b' = new_Uint8Array (bytes_of b)"
proof -
  let ?bs = "bytes_of b"
  have small: "\<forall>a \<in> set (map unat ?bs). a < 256"
  proof
    fix a assume "a \<in> set (map unat ?bs)"
    then obtain w :: "8 word" where "a = unat w" by auto
    then show "a < 256" using unsigned_less[of w, where 'a = nat] by simp
  qed
  have "\<not> list_ex (\<lambda>c. 255 < c) (map unat ?bs)"
    using small by (auto simp: list_ex_iff)
  then have e: "encode b = Inr (b64_encode (map unat ?bs))"
    by (simp add: encode_def btoa_def)
  have "map of_nat (map unat ?bs) = ?bs" by (simp add: comp_def)
  then have "decode (b64_encode (map unat ?bs)) = Inr (new_Uint8Array ?bs)"
    by (simp add: decode_def atob_b64_encode[OF small])
  then show ?thesis using e bytes_of_new_Uint8Array[of ?bs] by blast
qed

text \<open>For an array that spans its buffer, the result is the array itself.\<close>

lemma new_Uint8Array_bytes_of: "spans_buffer b \<Longrightarrow> new_Uint8Array (bytes_of b) = b"
  by (simp add: spans_buffer_def bytes_of_def new_Uint8Array_def)

lemma encode_example: "encode (new_Uint8Array [72, 105]) = Inr (lit ''SGk='')"
  by (simp add: encode_def btoa_def b64_char_def lit_def bytes_of_new_Uint8Array)

lemma decode_example: "decode (lit ''SGk='') = Inr (new_Uint8Array [72, 105])"
  by (simp add: decode_def atob_def lit_def ascii_whitespace_def strip_padding_def
      b64_value_def)


section \<open>Properties of the lesson history\<close>

subsection \<open>Reading prunes\<close>

lemma within_expiry:
  "(real_of_int (now - d) / real_of_int msPerDay \<le> EXPIRY_DAYS) = (now - d \<le> 7 * msPerDay)"
proof -
  have "(real_of_int (now - d) / 86400000 \<le> 7) = (real_of_int (now - d) \<le> 7 * 86400000)"
    by (simp add: field_simps)
  also have "\<dots> = (real_of_int (now - d) \<le> real_of_int (7 * 86400000))" by simp
  also have "\<dots> = (now - d \<le> 7 * 86400000)" by (simp only: of_int_le_iff)
  finally show ?thesis by (simp add: msPerDay_def EXPIRY_DAYS_def)
qed

lemma filter_same_length: "length (filter P xs) = length xs \<Longrightarrow> filter P xs = xs"
proof (induction xs)
  case Nil
  show ?case by simp
next
  case (Cons x xs)
  show ?case
  proof (cases "P x")
    case True
    with Cons show ?thesis by simp
  next
    case False
    have "length (filter P xs) \<le> length xs" by (rule length_filter_le)
    with False Cons.prems show ?thesis by simp
  qed
qed

lemma getLessonHistory_records:
  "getLessonHistory now (Some (RecordsJson records)) =
    (filter (\<lambda>r. now - date r \<le> 7 * msPerDay) records,
     Some (RecordsJson (filter (\<lambda>r. now - date r \<le> 7 * msPerDay) records)))"
  unfolding getLessonHistory_def getLessonHistory_try_def Let_def within_expiry
  by (simp add: filter_same_length)

text \<open>
  Claim C8. Every read of a stored array of records returns the records that are at
  most 7 days old, in their stored order, and leaves exactly these records in the store
  (the store is rewritten when a record was dropped). In particular, of three stored
  records dated now, 3 days ago and 10 days ago, the read returns the first two, and the
  store then holds the first two only.
\<close>

theorem getLessonHistory_prunes:
  "getLessonHistory now (Some (RecordsJson records)) =
     (filter (\<lambda>r. now - date r \<le> 7 * msPerDay) records,
      Some (RecordsJson (filter (\<lambda>r. now - date r \<le> 7 * msPerDay) records))) \<and>
   getLessonHistory now (Some (RecordsJson
       [lessonAt now, lessonAt (now - 3 * msPerDay), lessonAt (now - 10 * msPerDay)])) =
     ([lessonAt now, lessonAt (now - 3 * msPerDay)],
      Some (RecordsJson [lessonAt now, lessonAt (now - 3 * msPerDay)]))"
proof -
  have "date (lessonAt t) = t" for t by (simp add: lessonAt_def)
  then show ?thesis by (simp add: getLessonHistory_records) (simp add: msPerDay_def)
qed

subsection \<open>The week's entries\<close>

lemma dayOf_days_ago: "dayOf (now - k * msPerDay) = dayOf now - k"
  by (simp add: dayOf_def msPerDay_def)

lemma dayOf_yesterday: "dayOf (now - msPerDay) = dayOf now - 1"
  using dayOf_days_ago[of now 1] by simp

text \<open>Where the clock never changes, \<open>setDate\<close> goes back whole days of 24 hours.\<close>

lemma setDate_back_fixed_zone: "setDate_back (fixed_zone offset) now i = now - i * msPerDay"
  by (simp add: setDate_back_def fixed_zone_def Let_def)

lemma create_entries_fixed_zone:
  "create_entries (fixed_zone offset) now 6 [] =
    [(dayOf now - 6, []), (dayOf now - 5, []), (dayOf now - 4, []), (dayOf now - 3, []),
     (dayOf now - 2, []), (dayOf now - 1, []), (dayOf now, [])]"
proof -
  have six: "(6::nat) = Suc (Suc (Suc (Suc (Suc (Suc 0)))))" by simp
  show ?thesis
    unfolding six by (simp add: setDate_back_fixed_zone dayOf_days_ago dayOf_yesterday)
qed

text \<open>In every time zone the entries start out empty.\<close>

lemma snd_map_set:
  "\<forall>e \<in> set m. snd e = [] \<Longrightarrow> \<forall>e \<in> set (map_set k [] m). snd e = []"
  by (induction m) (fastforce split: if_splits)+

lemma snd_create_entries:
  "\<forall>e \<in> set m. snd e = [] \<Longrightarrow> \<forall>e \<in> set (create_entries tz now i m). snd e = []"
proof (induction i arbitrary: m)
  case 0
  then show ?case using snd_map_set by simp
next
  case (Suc i)
  show ?case using Suc.IH[OF snd_map_set[OF Suc.prems]] by simp
qed

lemma day_entry_empty:
  "\<forall>e \<in> set m. snd e = [] \<Longrightarrow>
   map (day_entry fp) m = map (\<lambda>d. \<lparr>dateKey = d, lessons = [], avgScore = 0\<rparr>) (map fst m)"
  by (induction m) (auto simp: day_entry_def)

lemma streak_loop_empty:
  "\<forall>g \<in> set grouped. lessons g = [] \<Longrightarrow> k \<le> length grouped \<Longrightarrow>
   streak_loop grouped k 0 = 0"
proof (induction k)
  case 0
  show ?case by simp
next
  case (Suc k)
  then have "grouped ! k \<in> set grouped" by simp
  then have e: "lessons (grouped ! k) = []" using Suc.prems(1) by blast
  have ih: "streak_loop grouped k 0 = 0" using Suc.IH Suc.prems by simp
  show ?case using e ih by simp
qed

subsection \<open>Missing or corrupt storage\<close>

text \<open>
  Claim C10. When the key is absent or holds a text that is not valid JSON,
  \<open>getLessonHistory\<close> returns the empty list, raises nothing and leaves the store as it
  is; so every derived view has a value, whatever the time zone and the rounding of the
  arithmetic: the day entries are all empty with average 0 (seven of them, for the seven
  days that end today, where the clock never changes), the weekly averages are all
  zero, there are no recent lessons and the streak is 0.
\<close>

theorem getLessonHistory_corrupt_storage:
  assumes "st = None \<or> st = Some InvalidJson"
  shows "getLessonHistory now st = ([], st) \<and>
    getLessonsGroupedByDay fp tz now st =
      (map (\<lambda>d. \<lparr>dateKey = d, lessons = [], avgScore = 0\<rparr>)
         (map fst (create_entries tz now 6 [])), st) \<and>
    getLessonsGroupedByDay fp (fixed_zone offset) now st =
      (map (\<lambda>k. \<lparr>dateKey = dayOf now - k, lessons = [], avgScore = 0\<rparr>) [6, 5, 4, 3, 2, 1, 0],
       st) \<and>
    getWeeklySkillAverages fp now st = (no_lessons, st) \<and>
    getRecentLessons limit now st = ([], st) \<and>
    getDailyStreak fp tz now st = (0, st)"
proof -
  have h: "getLessonHistory now st = ([], st)"
    using assms by (auto simp: getLessonHistory_def getLessonHistory_try_def)
  have e: "\<forall>e \<in> set (create_entries tz now 6 []). snd e = []" for tz
    by (rule snd_create_entries) simp
  have g: "getLessonsGroupedByDay fp tz now st =
      (map (\<lambda>d. \<lparr>dateKey = d, lessons = [], avgScore = 0\<rparr>)
         (map fst (create_entries tz now 6 [])), st)" for tz
    by (simp add: getLessonsGroupedByDay_def h day_entry_empty[OF e])
  have gf: "getLessonsGroupedByDay fp (fixed_zone offset) now st =
      (map (\<lambda>k. \<lparr>dateKey = dayOf now - k, lessons = [], avgScore = 0\<rparr>) [6, 5, 4, 3, 2, 1, 0],
       st)"
    by (simp add: g create_entries_fixed_zone)
  have s: "getDailyStreak fp tz now st = (0, st)"
    by (simp add: getDailyStreak_def g streak_loop_empty)
  have w: "getWeeklySkillAverages fp now st = (no_lessons, st)"
    by (simp add: getWeeklySkillAverages_def h)
  have r: "getRecentLessons limit now st = ([], st)"
    by (simp add: getRecentLessons_def h slice_from_def)
  show ?thesis by (intro conjI) (rule h g gf w r s)+
qed

theorem getLessonHistory_corrupt_storage_witness:
  "getLessonHistory 0 (Some InvalidJson) = ([], Some InvalidJson) \<and>
   getLessonHistory 0 None = ([], None) \<and>
   getDailyStreak exactArith newYork 0 (Some InvalidJson) = (0, Some InvalidJson) \<and>
   getWeeklySkillAverages exactArith 0 (Some InvalidJson) = (no_lessons, Some InvalidJson) \<and>
   getRecentLessons 5 0 None = ([], None)"
  using getLessonHistory_corrupt_storage[of "Some InvalidJson" 0 exactArith newYork 0 5]
    getLessonHistory_corrupt_storage[of None 0 exactArith newYork 0 5]
  by simp

subsection \<open>Grouping by day\<close>

lemma map_fst_map_push: "map fst (map_push k x m) = map fst m"
  by (induction m) auto

lemma map_push_distinct:
  "distinct (map fst m) \<Longrightarrow>
   map_push k x m = map (\<lambda>e. (fst e, snd e @ (if fst e = k then [x] else []))) m"
proof (induction m)
  case Nil
  show ?case by simp
next
  case (Cons e m)
  obtain k' v' where e: "e = (k', v')" by (cases e)
  show ?case
  proof (cases "k' = k")
    case True
    then have "k \<notin> set (map fst m)" using Cons.prems e by simp
    then have "map (\<lambda>e. (fst e, snd e @ (if fst e = k then [x] else []))) m = m"
      by (induction m) auto
    with True e show ?thesis by simp
  next
    case False
    with Cons e show ?thesis by simp
  qed
qed

lemma map_push_absent:
  "\<not> map_has k m \<Longrightarrow> map (\<lambda>e. (fst e, snd e @ (if fst e = k then [x] else []))) m = m"
  unfolding map_has_def by (induction m) auto

lemma populate_distinct:
  "distinct (map fst m) \<Longrightarrow>
   populate history m =
     map (\<lambda>e. (fst e, snd e @ filter (\<lambda>r. dayOf (date r) = fst e) history)) m"
proof (induction history arbitrary: m)
  case Nil
  show ?case by simp
next
  case (Cons lesson rest)
  let ?k = "dayOf (date lesson)"
  let ?m = "map (\<lambda>e. (fst e, snd e @ (if fst e = ?k then [lesson] else []))) m"
  have step: "(if map_has ?k m then map_push ?k lesson m else m) = ?m"
    using map_push_distinct[OF Cons.prems] map_push_absent[of ?k m lesson] by simp
  have d: "distinct (map fst ?m)" using Cons.prems by (simp add: comp_def)
  have "populate (lesson # rest) m = populate rest ?m"
    using step by (simp add: Let_def)
  also have "\<dots> = map (\<lambda>e. (fst e, snd e @ filter (\<lambda>r. dayOf (date r) = fst e) rest)) ?m"
    by (rule Cons.IH[OF d])
  also have "\<dots> =
      map (\<lambda>e. (fst e, snd e @ filter (\<lambda>r. dayOf (date r) = fst e) (lesson # rest))) m"
    by (simp add: comp_def)
  finally show ?case .
qed

lemma lessons_day_entry: "lessons (day_entry fp (d, ls)) = ls"
  by (simp add: day_entry_def)

subsection \<open>The streak loop\<close>

lemma streak_loop_inner:
  "k < length g \<Longrightarrow>
   streak_loop g k s = s + length (takeWhile (\<lambda>e. lessons e \<noteq> []) (rev (take k g)))"
proof (induction k arbitrary: s)
  case 0
  show ?case by simp
next
  case (Suc k)
  then have k: "k < length g" and nl: "int k \<noteq> int (length g) - 1" by auto
  have r: "rev (take (Suc k) g) = g ! k # rev (take k g)"
    using k by (simp add: take_Suc_conv_app_nth)
  show ?case using Suc.IH[OF k] nl unfolding r by simp
qed

lemma streak_loop_all:
  assumes "length g = Suc n"
  shows "streak_loop g (length g) 0 =
    (if lessons (g ! n) \<noteq> [] then 1 else 0) +
    length (takeWhile (\<lambda>e. lessons e \<noteq> []) (rev (take n g)))"
proof -
  have n: "n < length g" using assms by simp
  show ?thesis using streak_loop_inner[OF n] assms by simp
qed

subsection \<open>Records of the week are never pruned\<close>

lemma recent_day_within_expiry:
  assumes "dayOf d = dayOf now - int k" and "k \<le> 6"
  shows "now - d \<le> 7 * msPerDay"
proof -
  have 1: "now = now div 86400000 * 86400000 + now mod 86400000" by simp
  have 2: "d = d div 86400000 * 86400000 + d mod 86400000" by simp
  have 3: "now mod 86400000 < 86400000" by simp
  have 4: "0 \<le> d mod 86400000" by simp
  have 5: "d div 86400000 = now div 86400000 - int k"
    using assms(1) by (simp add: dayOf_def msPerDay_def)
  have 6: "int k \<le> 6" using assms(2) by simp
  have "now - d \<le> 7 * 86400000" using 1 2 3 4 5 6 by linarith
  then show ?thesis by (simp add: msPerDay_def)
qed

lemma filter_day_pruned:
  assumes "k \<le> 6"
  shows "filter (\<lambda>r. dayOf (date r) = dayOf now - int k)
           (filter (\<lambda>r. now - date r \<le> 7 * msPerDay) records) =
         filter (\<lambda>r. dayOf (date r) = dayOf now - int k) records"
  unfolding filter_filter
  by (rule filter_cong[OF refl]) (use recent_day_within_expiry[OF _ assms] in auto)

lemma day_has_lesson:
  assumes "k \<le> 6"
  shows "(filter (\<lambda>r. dayOf (date r) = dayOf now - int k)
            (filter (\<lambda>r. now - date r \<le> 7 * msPerDay) records) \<noteq> []) =
         has_lesson now records k"
  unfolding filter_day_pruned[OF assms] has_lesson_def ..

lemma grouped_week:
  "fst (getLessonsGroupedByDay fp (fixed_zone offset) now (Some (RecordsJson records))) =
    map (\<lambda>k. day_entry fp (dayOf now - int k,
        filter (\<lambda>r. dayOf (date r) = dayOf now - int k)
          (filter (\<lambda>r. now - date r \<le> 7 * msPerDay) records)))
      [6, 5, 4, 3, 2, 1, 0]"
proof -
  have d: "distinct (map fst (create_entries (fixed_zone offset) now 6 []))"
    by (simp add: create_entries_fixed_zone)
  show ?thesis
    unfolding getLessonsGroupedByDay_def getLessonHistory_records
    by (simp add: populate_distinct[OF d]) (simp add: create_entries_fixed_zone)
qed

lemma streak_of_week:
  assumes "g = map (\<lambda>k. day_entry fp (t - int k, F k)) [6, 5, 4, 3, 2, 1, 0]"
  shows "streak_loop g (length g) 0 =
    (if F 0 \<noteq> [] then 1 else 0) + length (takeWhile (\<lambda>k. F k \<noteq> []) [1, 2, 3, 4, 5, 6])"
proof -
  have len: "length g = Suc 6" using assms by simp
  have last: "g ! 6 = day_entry fp (t - int 0, F 0)" using assms by simp
  have six: "(6::nat) = Suc (Suc (Suc (Suc (Suc (Suc 0)))))" by simp
  have front: "rev (take 6 g) = map (\<lambda>k. day_entry fp (t - int k, F k)) [1, 2, 3, 4, 5, 6]"
    unfolding assms six by simp
  have tw: "length (takeWhile (\<lambda>e. lessons e \<noteq> [])
        (map (\<lambda>k. day_entry fp (t - int k, F k)) ks)) =
      length (takeWhile (\<lambda>k. F k \<noteq> []) ks)" for ks
    by (induction ks) (simp_all add: lessons_day_entry)
  show ?thesis
    unfolding streak_loop_all[OF len] last front tw by (simp add: lessons_day_entry)
qed

subsection \<open>The streak where the clock never changes\<close>

text \<open>
  In a time zone with a fixed offset the streak is computed from the seven days that
  end today. Today counts 1 when it has a record and does not end the count when it has
  none; then the days before today are counted, from yesterday backwards, up to the
  first day without a record. Hence records today and yesterday and none the day before
  give 2, and with no record today and one yesterday the streak is the number of
  consecutive days with records that ends yesterday, which is at least 1.
\<close>

lemma getDailyStreak_fixed_zone:
  "fst (getDailyStreak fp (fixed_zone offset) now (Some (RecordsJson records))) =
     (if has_lesson now records 0 then 1 else 0) +
     length (takeWhile (has_lesson now records) [1, 2, 3, 4, 5, 6]) \<and>
   (has_lesson now records 0 \<and> has_lesson now records 1 \<and> \<not> has_lesson now records 2 \<longrightarrow>
      fst (getDailyStreak fp (fixed_zone offset) now (Some (RecordsJson records))) = 2) \<and>
   (\<not> has_lesson now records 0 \<and> has_lesson now records 1 \<longrightarrow>
      fst (getDailyStreak fp (fixed_zone offset) now (Some (RecordsJson records))) =
        length (takeWhile (has_lesson now records) [1, 2, 3, 4, 5, 6]) \<and>
      1 \<le> fst (getDailyStreak fp (fixed_zone offset) now (Some (RecordsJson records))))"
proof -
  let ?H = "filter (\<lambda>r. now - date r \<le> 7 * msPerDay) records"
  let ?F = "\<lambda>k. filter (\<lambda>r. dayOf (date r) = dayOf now - int k) ?H"
  let ?g = "fst (getLessonsGroupedByDay fp (fixed_zone offset) now (Some (RecordsJson records)))"
  have s: "fst (getDailyStreak fp (fixed_zone offset) now (Some (RecordsJson records))) =
      streak_loop ?g (length ?g) 0"
    by (simp add: getDailyStreak_def split: prod.splits)
  have w: "streak_loop ?g (length ?g) 0 =
      (if ?F 0 \<noteq> [] then 1 else 0) + length (takeWhile (\<lambda>k. ?F k \<noteq> []) [1, 2, 3, 4, 5, 6])"
    by (rule streak_of_week[of ?g fp "dayOf now" ?F]) (rule grouped_week)
  have f0: "(?F 0 \<noteq> []) = has_lesson now records 0" by (rule day_has_lesson) simp
  have fk: "(?F k \<noteq> []) = has_lesson now records k" if "k \<in> set [1, 2, 3, 4, 5, 6]" for k
  proof (rule day_has_lesson)
    show "k \<le> 6" using that by auto
  qed
  have "takeWhile (\<lambda>k. ?F k \<noteq> []) [1, 2, 3, 4, 5, 6] =
      takeWhile (has_lesson now records) [1, 2, 3, 4, 5, 6]"
    by (rule takeWhile_cong[OF refl]) (rule fk)
  with s w f0 have main:
    "fst (getDailyStreak fp (fixed_zone offset) now (Some (RecordsJson records))) =
     (if has_lesson now records 0 then 1 else 0) +
     length (takeWhile (has_lesson now records) [1, 2, 3, 4, 5, 6])"
    by simp
  show ?thesis unfolding main by simp
qed

lemma getDailyStreak_fixed_zone_examples:
  "fst (getDailyStreak fp vietnam someNow
      (Some (RecordsJson [lessonAt (someNow - msPerDay), lessonAt someNow]))) = 2 \<and>
   fst (getDailyStreak fp vietnam someNow
      (Some (RecordsJson [lessonAt (someNow - 2 * msPerDay), lessonAt (someNow - msPerDay)]))) = 2"
proof -
  let ?a = "[lessonAt (someNow - msPerDay), lessonAt someNow]"
  let ?b = "[lessonAt (someNow - 2 * msPerDay), lessonAt (someNow - msPerDay)]"
  have a: "has_lesson someNow ?a 0" "has_lesson someNow ?a 1" "\<not> has_lesson someNow ?a 2"
    by (simp_all add: has_lesson_def lessonAt_def someNow_def msPerDay_def dayOf_def)
  have b: "\<not> has_lesson someNow ?b 0" "has_lesson someNow ?b 1" "has_lesson someNow ?b 2"
    "\<not> has_lesson someNow ?b 3"
    by (simp_all add: has_lesson_def lessonAt_def someNow_def msPerDay_def dayOf_def)
  show ?thesis
    unfolding vietnam_def
    using getDailyStreak_fixed_zone[of fp _ someNow ?a]
      getDailyStreak_fixed_zone[of fp _ someNow ?b] a b
    by simp
qed

subsection \<open>The streak across a change of the clock\<close>



end
